theory Spec2Isabelle
  imports Main
begin

section \<open>Data model\<close>

text \<open>
  The page is the React component \<open>Home\<close>. Its state is the five \<open>useState\<close> cells and
  the \<open>useRef\<close> cell, the form state kept by the form hook, and the part of the browser the
  handlers act on: the table of pending interval timers, the clock, and the requests that
  are in flight.

  \<open>TLeadFormInputs\<close> are the three form fields. \<open>ILead\<close> extends them with \<open>_id\<close>
  (written \<open>lead_id\<close>). A response body is typed \<open>any\<close> in the source and is appended to
  the lead sequence as it is, so the record also carries the one further property the
  handlers read, \<open>res.error\<close> (\<open>res_error\<close>, \<open>None\<close> when the property is absent).
  The status is a string at run time; the enumeration \<open>ELeadStatus\<close> is its list of values.
\<close>

record TLeadFormInputs =
  name :: string
  email :: string
  status :: string

record ILead = TLeadFormInputs +
  lead_id :: string
  res_error :: "string option"

definition ELeadStatus :: "string list" where
  "ELeadStatus = [''New'', ''Engaged'', ''Proposal Sent'', ''Closed-Won'', ''Closed-Lost'']"

text \<open>The \<open>errors\<close> object of the form state: one optional message per field.\<close>

record FieldErrors =
  name_message :: "string option"
  email_message :: "string option"
  status_message :: "string option"

text \<open>
  A request in flight. The promise callbacks of \<open>onSubmit\<close> and \<open>removeLead\<close> read the
  variable \<open>leads\<close> of the render in which the handler was created, so a request carries
  the lead sequence of the moment it was issued.
\<close>

datatype request =
    GET_leads
  | POST_lead TLeadFormInputs "ILead list"
  | DELETE_lead string "ILead list"

text \<open>
  How a request settles: the parsed JSON body (a lead sequence for the read request, an
  object for the other two), or a rejected promise with the message of the thrown error.
\<close>

datatype outcome =
    Leads "ILead list"
  | Object ILead
  | Failure string

record Home =
  leads :: "ILead list"
  fetching :: bool
  modal_open :: bool
  loading :: bool
  error :: "string option"
  intervalRef :: "nat option"
  form :: TLeadFormInputs
  errors :: FieldErrors
  timers :: "(nat \<times> nat) list"
  next_handle :: nat
  now :: nat
  in_flight :: "request list"

text \<open>
  \<open>timers\<close> holds the pending intervals as pairs of handle and next due time in
  milliseconds; every interval of the page has the same callback and the same period.
  Handles are positive and never reused, so a handle stored in \<open>intervalRef\<close> is truthy.
\<close>

definition error_duration :: nat where
  "error_duration = 4000"

text \<open>JavaScript truthiness of a value that is a string or undefined/null.\<close>

fun truthy :: "string option \<Rightarrow> bool" where
  "truthy None = False"
| "truthy (Some m) = (m \<noteq> [])"

section \<open>Validation schema\<close>

text \<open>
  The Joi \<open>schema\<close>, run by the resolver with \<open>abortEarly: false\<close>, so each field reports
  its own first failure. An empty string fails with \<open>string.empty\<close> before any other rule
  of the field; a status outside the allowed values fails with \<open>any.only\<close>. Joi's test of
  e-mail syntax is a library routine and is taken as the parameter \<open>is_email\<close>.
\<close>

definition no_errors :: FieldErrors where
  "no_errors = \<lparr>name_message = None, email_message = None, status_message = None\<rparr>"

definition schema :: "(string \<Rightarrow> bool) \<Rightarrow> TLeadFormInputs \<Rightarrow> FieldErrors" where
  "schema is_email v =
     \<lparr>name_message =
        (if name v = [] then Some ''Name is required''
         else if length (name v) > 20 then Some ''Name cannot exceed 20 characters''
         else None),
      email_message =
        (if email v = [] then Some ''Email is required''
         else if is_email (email v) then None
         else Some ''Invalid email address''),
      status_message =
        (if status v \<in> set ELeadStatus then None else Some ''Invalid status'')\<rparr>"

section \<open>Timers\<close>

definition setInterval :: "Home \<Rightarrow> nat \<times> Home" where
  "setInterval s =
     (next_handle s,
      s\<lparr>timers := timers s @ [(next_handle s, now s + error_duration)],
        next_handle := Suc (next_handle s)\<rparr>)"

definition clearInterval :: "nat option \<Rightarrow> Home \<Rightarrow> Home" where
  "clearInterval r s =
     (case r of
        None \<Rightarrow> s
      | Some h \<Rightarrow> s\<lparr>timers := filter (\<lambda>t. fst t \<noteq> h) (timers s)\<rparr>)"

text \<open>
  The callback given to \<open>setInterval\<close>: it clears the error, then clears whichever
  interval \<open>intervalRef\<close> holds at the time it runs.
\<close>

definition interval_callback :: "Home \<Rightarrow> Home" where
  "interval_callback s = clearInterval (intervalRef s) (s\<lparr>error := None\<rparr>)"

text \<open>
  One firing of the interval \<open>h\<close> that is due at \<open>d\<close>: the clock reaches \<open>d\<close>, the
  interval is due again one period later, and the callback runs.
\<close>

definition fire :: "nat \<Rightarrow> nat \<Rightarrow> Home \<Rightarrow> Home" where
  "fire h d s =
     interval_callback
       (s\<lparr>now := max (now s) d,
          timers := map (\<lambda>t. if fst t = h then (fst t, snd t + error_duration) else t) (timers s)\<rparr>)"

text \<open>The pending timer that fires next: least due time, the older one on a tie.\<close>

fun earliest :: "(nat \<times> nat) list \<Rightarrow> (nat \<times> nat) option" where
  "earliest [] = None"
| "earliest (t # ts) =
     (case earliest ts of
        None \<Rightarrow> Some t
      | Some u \<Rightarrow> if snd t \<le> snd u then Some t else Some u)"

definition due :: "nat \<Rightarrow> Home \<Rightarrow> (nat \<times> nat) option" where
  "due T s = earliest (filter (\<lambda>t. snd t \<le> T) (timers s))"

lemma earliest_mem: "earliest ts = Some t \<Longrightarrow> t \<in> set ts"
  by (induction ts arbitrary: t) (auto split: option.splits if_splits)

lemma earliest_None: "earliest ts = None \<longleftrightarrow> ts = []"
  by (cases ts) (auto split: option.splits)

lemma due_mem: "due T s = Some t \<Longrightarrow> t \<in> set (timers s) \<and> snd t \<le> T"
  unfolding due_def using earliest_mem by fastforce

lemma bump_decreases:
  "t \<in> set ts \<Longrightarrow> snd t \<le> T \<Longrightarrow>
   sum_list (map (\<lambda>u. Suc T - snd u)
      (map (\<lambda>u. if fst u = fst t then (fst u, snd u + error_duration) else u) ts))
   < sum_list (map (\<lambda>u. Suc T - snd u) ts)"
proof (induction ts)
  case Nil
  then show ?case by simp
next
  case (Cons a ts)
  have le: "sum_list (map (\<lambda>u. Suc T - snd u)
      (map (\<lambda>u. if fst u = fst t then (fst u, snd u + error_duration) else u) ts))
    \<le> sum_list (map (\<lambda>u. Suc T - snd u) ts)"
    by (induction ts) (auto simp: add_mono)
  show ?case
  proof (cases "a = t")
    case True
    with Cons.prems le show ?thesis by (simp add: error_duration_def)
  next
    case False
    with Cons have "sum_list (map (\<lambda>u. Suc T - snd u)
      (map (\<lambda>u. if fst u = fst t then (fst u, snd u + error_duration) else u) ts))
      < sum_list (map (\<lambda>u. Suc T - snd u) ts)" by simp
    then show ?thesis by (simp add: add_le_less_mono)
  qed
qed

lemma fire_decreases:
  assumes "due T s = Some (h, d)"
  shows "sum_list (map (\<lambda>u. Suc T - snd u) (timers (fire h d s)))
         < sum_list (map (\<lambda>u. Suc T - snd u) (timers s))"
proof -
  from assms have m: "(h, d) \<in> set (timers s)" and le: "d \<le> T"
    using due_mem by fastforce+
  let ?b = "map (\<lambda>u. if fst u = h then (fst u, snd u + error_duration) else u) (timers s)"
  have "sum_list (map (\<lambda>u. Suc T - snd u) (timers (fire h d s)))
        \<le> sum_list (map (\<lambda>u. Suc T - snd u) ?b)"
  proof (cases "intervalRef s")
    case None
    then show ?thesis by (simp add: fire_def interval_callback_def clearInterval_def)
  next
    case (Some r)
    then have "timers (fire h d s) = filter (\<lambda>t. fst t \<noteq> r) ?b"
      by (simp add: fire_def interval_callback_def clearInterval_def)
    then show ?thesis
      using sum_list_filter_le_nat [of "\<lambda>u. Suc T - snd u" "\<lambda>t. fst t \<noteq> r" ?b] by simp
  qed
  also have "\<dots> < sum_list (map (\<lambda>u. Suc T - snd u) (timers s))"
    using bump_decreases [OF m, of T] le by simp
  finally show ?thesis .
qed

text \<open>
  The event loop running the timers up to time \<open>T\<close>: while a pending interval is due at
  or before \<open>T\<close>, the earliest one fires; then the clock stands at \<open>T\<close>.
\<close>

function run_until :: "nat \<Rightarrow> Home \<Rightarrow> Home" where
  "run_until T s =
     (case due T s of
        None \<Rightarrow> s\<lparr>now := max (now s) T\<rparr>
      | Some t \<Rightarrow> run_until T (fire (fst t) (snd t) s))"
  by pat_completeness auto
termination
  by (relation "measure (\<lambda>(T, s). sum_list (map (\<lambda>u. Suc T - snd u) (timers s)))")
     (auto simp: fire_decreases)

declare run_until.simps [simp del]

section \<open>The handlers of the page\<close>

text \<open>
  The state of the first render. The text inputs of the form start empty and the select
  shows its first option; \<open>reset()\<close> brings the form back to these values and drops the
  field messages.
\<close>

definition form_initial :: TLeadFormInputs where
  "form_initial = \<lparr>name = [], email = [], status = ''New''\<rparr>"

definition Home_initial :: Home where
  "Home_initial =
     \<lparr>leads = [], fetching = True, modal_open = False, loading = False, error = None,
      intervalRef = None, form = form_initial, errors = no_errors, timers = [],
      next_handle = 1, now = 0, in_flight = []\<rparr>"

definition reset :: "Home \<Rightarrow> Home" where
  "reset s = s\<lparr>form := form_initial, errors := no_errors\<rparr>"

text \<open>
  The effect on \<open>[open]\<close>: \<open>if (!open) setError(null)\<close>. It runs after the first render
  and after every render in which \<open>open\<close> has changed; \<open>setOpen\<close> to the value the flag
  already has causes no render.
\<close>

definition reset_error_effect :: "Home \<Rightarrow> Home" where
  "reset_error_effect s = (if modal_open s then s else s\<lparr>error := None\<rparr>)"

definition setOpen :: "bool \<Rightarrow> Home \<Rightarrow> Home" where
  "setOpen b s =
     (if modal_open s = b then s else reset_error_effect (s\<lparr>modal_open := b\<rparr>))"

text \<open>
  \<open>fetchLeads\<close>: the part up to the \<open>await\<close>, then the \<open>try\<close> branch with the parsed
  data and the \<open>catch\<close> branch with the message, each followed by \<open>finally\<close>.
\<close>

definition fetchLeads :: "Home \<Rightarrow> Home" where
  "fetchLeads s = s\<lparr>fetching := True, in_flight := in_flight s @ [GET_leads]\<rparr>"

definition fetchLeads_try :: "ILead list \<Rightarrow> Home \<Rightarrow> Home" where
  "fetchLeads_try data s = s\<lparr>leads := data, fetching := False\<rparr>"

definition fetchLeads_catch :: "string \<Rightarrow> Home \<Rightarrow> Home" where
  "fetchLeads_catch m s = s\<lparr>error := Some m, fetching := False\<rparr>"

text \<open>The component after mounting: both effects have run, the read request is in flight.\<close>

definition mount :: Home where
  "mount = reset_error_effect (fetchLeads Home_initial)"

text \<open>
  \<open>onSubmit\<close>: the part up to the \<open>await\<close> issues the create request; \<open>onSubmit_then\<close> is
  the second \<open>.then\<close> callback followed by \<open>.finally\<close>, where \<open>ls\<close> is the \<open>leads\<close> the
  handler closed over; \<open>onSubmit_finally\<close> is what runs when the promise rejects.
\<close>

definition onSubmit :: "TLeadFormInputs \<Rightarrow> Home \<Rightarrow> Home" where
  "onSubmit data s = s\<lparr>loading := True, in_flight := in_flight s @ [POST_lead data (leads s)]\<rparr>"

definition onSubmit_then :: "ILead list \<Rightarrow> ILead \<Rightarrow> Home \<Rightarrow> Home" where
  "onSubmit_then ls res s =
     (if truthy (res_error res) then s\<lparr>error := res_error res, loading := False\<rparr>
      else (reset (setOpen False s))\<lparr>leads := ls @ [res], error := None, loading := False\<rparr>)"

definition onSubmit_finally :: "Home \<Rightarrow> Home" where
  "onSubmit_finally s = s\<lparr>loading := False\<rparr>"

text \<open>
  \<open>handleSubmit(onSubmit)\<close>: the resolver validates the form values; \<open>onSubmit\<close> is
  called only when no field has a message.
\<close>

definition handleSubmit :: "(string \<Rightarrow> bool) \<Rightarrow> Home \<Rightarrow> Home" where
  "handleSubmit is_email s =
     (if schema is_email (form s) = no_errors then onSubmit (form s) (s\<lparr>errors := no_errors\<rparr>)
      else s\<lparr>errors := schema is_email (form s)\<rparr>)"

text \<open>
  \<open>removeLead\<close>: the interval in \<open>intervalRef\<close> is cleared first, then comes the guard on
  the id, then the delete request. \<open>removeLead_then\<close> is the second \<open>.then\<close> callback.
\<close>

definition removeLead :: "string \<Rightarrow> Home \<Rightarrow> Home" where
  "removeLead lid s =
     (let s1 = clearInterval (intervalRef s) s
      in if lid = [] then s1
         else s1\<lparr>in_flight := in_flight s1 @ [DELETE_lead lid (leads s1)]\<rparr>)"

definition removeLead_then :: "string \<Rightarrow> ILead list \<Rightarrow> ILead \<Rightarrow> Home \<Rightarrow> Home" where
  "removeLead_then lid ls res s =
     (if truthy (res_error res) then
        (let (h, s1) = setInterval (s\<lparr>error := res_error res, loading := False\<rparr>)
         in s1\<lparr>intervalRef := Some h\<rparr>)
      else s\<lparr>leads := filter (\<lambda>l. lead_id l \<noteq> lid) ls\<rparr>)"

text \<open>
  A settled request runs the callbacks of its handler. A body of the wrong shape for the
  request is outside the declared types and is not an event of the model.
\<close>

fun settle :: "request \<Rightarrow> outcome \<Rightarrow> Home \<Rightarrow> Home option" where
  "settle GET_leads (Leads data) s = Some (fetchLeads_try data s)"
| "settle GET_leads (Failure m) s = Some (fetchLeads_catch m s)"
| "settle (POST_lead data ls) (Object res) s = Some (onSubmit_then ls res s)"
| "settle (POST_lead data ls) (Failure m) s = Some (onSubmit_finally s)"
| "settle (DELETE_lead lid ls) (Object res) s = Some (removeLead_then lid ls res s)"
| "settle (DELETE_lead lid ls) (Failure m) s = Some s"
| "settle _ _ s = None"

section \<open>What is rendered\<close>

text \<open>
  \<open>tbody\<close> is the list of rows the render function returns for a state. It is not the
  document after reconciliation: the rows are keyed by \<open>_id\<close>, and for a sequence in
  which two leads share an id the rows kept in the document are not determined by the
  state alone. The statements below about rows are statements about the returned list.
\<close>

datatype row =
    Fetching_row
  | Lead_row nat ILead
  | No_leads_row
  | Error_row string

definition tbody :: "Home \<Rightarrow> row list" where
  "tbody s =
     (if fetching s then [Fetching_row]
      else if leads s \<noteq> [] then map (\<lambda>(i, l). Lead_row (Suc i) l) (enumerate 0 (leads s))
      else [No_leads_row])
     @ (case error s of
          None \<Rightarrow> []
        | Some m \<Rightarrow> if \<not> modal_open s \<and> m \<noteq> [] then [Error_row m] else [])"

text \<open>The paragraph under the submit button; the modal around it is visible when open.\<close>

definition form_error :: "Home \<Rightarrow> string option" where
  "form_error s = (if truthy (error s) then error s else None)"

definition Modal_visible :: "Home \<Rightarrow> bool" where
  "Modal_visible s = modal_open s"

section \<open>Events\<close>

text \<open>
  What can happen to the page: the user clicks the add button (disabled while loading),
  closes the modal, edits the form, submits it (the button is disabled while loading and
  the form is hidden with the modal), clicks the delete button of a rendered row; the
  \<open>i\<close>-th request in flight settles; time passes. \<open>Edit\<close> stores the typed values
  only: the field messages are left as the last submission set them, whereas the form
  hook validates a changed field again once the form has been submitted. The runs below
  edit the form before its first submission.
\<close>

datatype event =
    Click_add
  | Click_close
  | Edit TLeadFormInputs
  | Submit
  | Click_delete string
  | Settle nat outcome
  | Elapse nat

fun step :: "(string \<Rightarrow> bool) \<Rightarrow> event \<Rightarrow> Home \<Rightarrow> Home option" where
  "step is_email Click_add s = (if loading s then None else Some (setOpen True s))"
| "step is_email Click_close s = Some (setOpen False s)"
| "step is_email (Edit v) s = Some (s\<lparr>form := v\<rparr>)"
| "step is_email Submit s =
     (if loading s \<or> \<not> modal_open s then None else Some (handleSubmit is_email s))"
| "step is_email (Click_delete lid) s =
     (if fetching s \<or> lid \<notin> set (map lead_id (leads s)) then None
      else Some (removeLead lid s))"
| "step is_email (Settle i out) s =
     (if i < length (in_flight s)
      then settle (in_flight s ! i) out
             (s\<lparr>in_flight := take i (in_flight s) @ drop (Suc i) (in_flight s)\<rparr>)
      else None)"
| "step is_email (Elapse d) s = Some (run_until (now s + d) s)"

fun run :: "(string \<Rightarrow> bool) \<Rightarrow> event list \<Rightarrow> Home \<Rightarrow> Home option" where
  "run is_email [] s = Some s"
| "run is_email (ev # evs) s =
     (case step is_email ev s of
        None \<Rightarrow> None
      | Some s' \<Rightarrow> run is_email evs s')"

section \<open>The sequence the specification expects\<close>

text \<open>
  The specification's invariant, in its own words: the displayed sequence is that of the
  most recent successful fetch, with each later successful create appended and each later
  successful delete removed. \<open>expected_leads\<close> computes that sequence along a run of
  events, judging success by the absence of the error field.
\<close>

fun expected_settle :: "request \<Rightarrow> outcome \<Rightarrow> ILead list \<Rightarrow> ILead list" where
  "expected_settle GET_leads (Leads data) acc = data"
| "expected_settle (POST_lead data ls) (Object res) acc =
     (if res_error res = None then acc @ [res] else acc)"
| "expected_settle (DELETE_lead lid ls) (Object res) acc =
     (if res_error res = None then filter (\<lambda>l. lead_id l \<noteq> lid) acc else acc)"
| "expected_settle _ _ acc = acc"

fun expected_step :: "event \<Rightarrow> Home \<Rightarrow> ILead list \<Rightarrow> ILead list" where
  "expected_step (Settle i out) s acc =
     (if i < length (in_flight s) then expected_settle (in_flight s ! i) out acc else acc)"
| "expected_step _ s acc = acc"

fun expected_leads ::
  "(string \<Rightarrow> bool) \<Rightarrow> event list \<Rightarrow> Home \<Rightarrow> ILead list \<Rightarrow> ILead list" where
  "expected_leads is_email [] s acc = acc"
| "expected_leads is_email (ev # evs) s acc =
     (case step is_email ev s of
        None \<Rightarrow> acc
      | Some s' \<Rightarrow> expected_leads is_email evs s' (expected_step ev s acc))"

text \<open>
  Whether a run of events contains a successful replace: the read request settling with
  data. \<open>fetches\<close> counts the read requests in flight.
\<close>

fun is_replace :: "event \<Rightarrow> Home \<Rightarrow> bool" where
  "is_replace (Settle i (Leads data)) s =
     (i < length (in_flight s) \<and> in_flight s ! i = GET_leads)"
| "is_replace _ s = False"

fun replaced :: "(string \<Rightarrow> bool) \<Rightarrow> event list \<Rightarrow> Home \<Rightarrow> bool" where
  "replaced is_email [] s = False"
| "replaced is_email (ev # evs) s =
     (case step is_email ev s of
        None \<Rightarrow> False
      | Some s' \<Rightarrow> is_replace ev s \<or> replaced is_email evs s')"

definition fetches :: "Home \<Rightarrow> nat" where
  "fetches s = length (filter (\<lambda>r. r = GET_leads) (in_flight s))"

section \<open>Example data\<close>

text \<open>
  Concrete leads, response bodies and runs of events used below. \<open>has_at\<close> stands in for
  the e-mail test on the example addresses.
\<close>

definition has_at :: "string \<Rightarrow> bool" where
  "has_at e = (CHR ''@'' \<in> set e)"

definition Ada_input :: TLeadFormInputs where
  "Ada_input = \<lparr>name = ''Ada'', email = ''ada@x.com'', status = ''New''\<rparr>"

definition Ada :: ILead where
  "Ada = \<lparr>name = ''Ada'', email = ''ada@x.com'', status = ''New'', lead_id = ''a1'',
          res_error = None\<rparr>"

definition Bob :: ILead where
  "Bob = \<lparr>name = ''Bob'', email = ''bob@x.com'', status = ''Engaged'', lead_id = ''b2'',
          res_error = None\<rparr>"

text \<open>A response body with no lead fields: \<open>{}\<close> for \<open>None\<close>, \<open>{error: m}\<close> for \<open>Some m\<close>.\<close>

definition body :: "string option \<Rightarrow> ILead" where
  "body e = \<lparr>name = [], email = [], status = [], lead_id = [], res_error = e\<rparr>"

text \<open>The page with Ada and Bob loaded and nothing in flight.\<close>

definition loaded :: Home where
  "loaded = mount\<lparr>leads := [Ada, Bob], fetching := False, in_flight := []\<rparr>"

text \<open>Two delete buttons clicked before either response arrives; both deletes succeed.\<close>

definition two_deletes :: "event list" where
  "two_deletes =
     [Settle 0 (Leads [Ada, Bob]), Click_delete ''a1'', Click_delete ''b2'',
      Settle 0 (Object (body None)), Settle 0 (Object (body None))]"

text \<open>
  A delete fails at time 0; one second later another delete is clicked and succeeds; then
  three more seconds pass.
\<close>

definition failed_then_successful_delete :: "event list" where
  "failed_then_successful_delete =
     [Settle 0 (Leads [Ada, Bob]), Click_delete ''a1'',
      Settle 0 (Object (body (Some ''Not found''))),
      Elapse 1000, Click_delete ''b2'', Settle 0 (Object (body None)), Elapse 3000]"

text \<open>Two delete buttons clicked before either response; both fail, one second apart.\<close>

definition two_failed_deletes :: "event list" where
  "two_failed_deletes =
     [Settle 0 (Leads [Ada, Bob]), Click_delete ''a1'', Click_delete ''b2'',
      Settle 0 (Object (body (Some ''Not found''))), Elapse 1000,
      Settle 0 (Object (body (Some ''Locked'')))]"

text \<open>A delete fails at time 0 with the modal closed.\<close>

definition failed_delete :: "event list" where
  "failed_delete =
     [Settle 0 (Leads [Ada, Bob]), Click_delete ''a1'',
      Settle 0 (Object (body (Some ''Not found'')))]"

text \<open>
  A lead whose record came without an id, fetched together with Ada; the delete of Ada
  fails at time 0, then the delete button of the lead without id is clicked.
\<close>

definition Eve :: ILead where
  "Eve = \<lparr>name = ''Eve'', email = ''eve@x.com'', status = ''New'', lead_id = [],
          res_error = None\<rparr>"

definition failed_delete_then_empty_id :: "event list" where
  "failed_delete_then_empty_id =
     [Settle 0 (Leads [Ada, Eve]), Click_delete ''a1'',
      Settle 0 (Object (body (Some ''Not found''))), Click_delete []]"

text \<open>
  After that failed delete the user opens the modal, fills the form and submits; one
  second has passed and the create request is in flight.
\<close>

definition create_after_failed_delete :: "event list" where
  "create_after_failed_delete =
     failed_delete @ [Click_add, Edit Ada_input, Submit, Elapse 1000]"

definition awaiting_create :: Home where
  "awaiting_create =
     mount\<lparr>leads := [Ada, Bob], fetching := False, modal_open := True, loading := True,
           error := Some ''Not found'', intervalRef := Some 1, form := Ada_input,
           timers := [(1, 4000)], next_handle := 2, now := 1000,
           in_flight := [POST_lead Ada_input [Ada, Bob]]\<rparr>"

definition create_refused :: Home where
  "create_refused =
     awaiting_create\<lparr>error := Some ''Email already exists'', loading := False,
                     in_flight := []\<rparr>"

text \<open>The modal open on the loaded page, with the form filled or left empty.\<close>

definition filling_form :: Home where
  "filling_form = loaded\<lparr>modal_open := True, form := Ada_input\<rparr>"

definition submit_filled_form :: "event list" where
  "submit_filled_form = [Settle 0 (Leads [Ada, Bob]), Click_add, Edit Ada_input, Submit]"

text \<open>
  A third lead, created through the form. In \<open>delete_then_create\<close> the delete of Ada is
  clicked, then the form is submitted, and the delete settles before the create does; in
  \<open>create_then_delete\<close> the two responses arrive in the other order. Both requests
  succeed.
\<close>

definition Cy_input :: TLeadFormInputs where
  "Cy_input = \<lparr>name = ''Cy'', email = ''cy@x.com'', status = ''New''\<rparr>"

definition Cy :: ILead where
  "Cy = \<lparr>name = ''Cy'', email = ''cy@x.com'', status = ''New'', lead_id = ''c3'',
         res_error = None\<rparr>"

definition both_in_flight :: "event list" where
  "both_in_flight =
     [Settle 0 (Leads [Ada, Bob]), Click_delete ''a1'', Click_add, Edit Cy_input, Submit]"

definition delete_then_create :: "event list" where
  "delete_then_create = both_in_flight @ [Settle 0 (Object (body None)), Settle 0 (Object Cy)]"

definition create_then_delete :: "event list" where
  "create_then_delete = both_in_flight @ [Settle 1 (Object Cy), Settle 0 (Object (body None))]"

text \<open>
  After the two failed deletes and the firing at four seconds, a create is submitted and
  refused half a second later; the clock then runs to five seconds, four seconds after
  the second failed delete.
\<close>

definition refused_create_after_two_failed_deletes :: "event list" where
  "refused_create_after_two_failed_deletes =
     two_failed_deletes @
     [Elapse 3000, Click_add, Edit Ada_input, Submit, Elapse 500,
      Settle 0 (Object (body (Some ''Email already exists''))), Elapse 500]"

lemmas example_defs = has_at_def Ada_input_def Ada_def Bob_def body_def loaded_def
  two_deletes_def failed_then_successful_delete_def two_failed_deletes_def failed_delete_def
  filling_form_def submit_filled_form_def Eve_def failed_delete_then_empty_id_def

lemmas page_defs = mount_def Home_initial_def form_initial_def no_errors_def reset_def
  reset_error_effect_def setOpen_def fetchLeads_def fetchLeads_try_def fetchLeads_catch_def
  onSubmit_def onSubmit_then_def onSubmit_finally_def handleSubmit_def schema_def
  ELeadStatus_def removeLead_def removeLead_then_def setInterval_def clearInterval_def
  error_duration_def

section \<open>Properties of the timers\<close>

lemma fire_error: "error (fire h d s) = None"
  by (cases "intervalRef s") (simp_all add: fire_def interval_callback_def clearInterval_def)

lemma fire_modal_open: "modal_open (fire h d s) = modal_open s"
  by (cases "intervalRef s") (simp_all add: fire_def interval_callback_def clearInterval_def)

lemma run_until_modal_open: "modal_open (run_until T s) = modal_open s"
proof (induction T s rule: run_until.induct)
  case (1 T s)
  show ?case
  proof (cases "due T s")
    case None
    then show ?thesis by (simp add: run_until.simps [of T s])
  next
    case (Some t)
    with 1 show ?thesis by (simp add: run_until.simps [of T s] fire_modal_open)
  qed
qed

lemma run_until_error_None: "error s = None \<Longrightarrow> error (run_until T s) = None"
proof (induction T s rule: run_until.induct)
  case (1 T s)
  show ?case
  proof (cases "due T s")
    case None
    with 1 show ?thesis by (simp add: run_until.simps [of T s])
  next
    case (Some t)
    with 1 show ?thesis by (simp add: run_until.simps [of T s] fire_error)
  qed
qed

lemma due_Some: "t \<in> set (timers s) \<Longrightarrow> snd t \<le> T \<Longrightarrow> due T s \<noteq> None"
  unfolding due_def earliest_None by (auto simp: filter_empty_conv)

text \<open>
  If some pending interval is due by \<open>T\<close>, a callback runs before \<open>T\<close> and from then on
  the error is null, whatever it was.
\<close>

lemma run_until_clears:
  assumes "t \<in> set (timers s)" and "snd t \<le> T"
  shows "error (run_until T s) = None"
proof -
  from assms obtain u where u: "due T s = Some u" using due_Some by blast
  then have "run_until T s = run_until T (fire (fst u) (snd u) s)"
    by (simp add: run_until.simps [of T s])
  then show ?thesis by (simp add: run_until_error_None fire_error)
qed

text \<open>
  A failed delete on its own: the message is set when the response is handled, and it is
  gone once the period has passed with no other event.
\<close>

lemma failed_delete_shows_then_clears:
  assumes "truthy (res_error res)"
  shows "error (removeLead_then lid ls res s) = res_error res \<and>
         error (run_until (now s + error_duration) (removeLead_then lid ls res s)) = None"
proof -
  have "(next_handle s, now s + error_duration) \<in> set (timers (removeLead_then lid ls res s))"
    using assms by (simp add: removeLead_then_def setInterval_def)
  from run_until_clears [OF this] assms show ?thesis
    by (simp add: removeLead_then_def setInterval_def)
qed

lemma settle_keeps_timers:
  "settle r out s = Some s' \<Longrightarrow> set (timers s) \<subseteq> set (timers s')"
  by (cases r; cases out) (auto simp: page_defs Let_def split: if_splits)

lemma step_keeps_timers:
  assumes "step is_email ev s = Some s'"
    and "\<forall>k. ev \<noteq> Click_delete k" and "\<forall>k. ev \<noteq> Elapse k"
  shows "set (timers s) \<subseteq> set (timers s')"
proof (cases ev)
  case (Settle i out)
  with assms(1) have "settle (in_flight s ! i) out
      (s\<lparr>in_flight := take i (in_flight s) @ drop (Suc i) (in_flight s)\<rparr>) = Some s'"
    by (simp split: if_splits)
  from settle_keeps_timers [OF this] show ?thesis by simp
qed (use assms in \<open>auto simp: page_defs split: if_splits\<close>)

section \<open>Properties of the rendered table\<close>

lemma tbody_Lead_row: "Lead_row i l \<in> set (tbody s) \<Longrightarrow> l \<in> set (leads s)"
  by (auto simp: tbody_def in_set_enumerate_eq split: if_splits option.splits)

section \<open>The read request settles once\<close>

lemma fire_in_flight: "in_flight (fire h d s) = in_flight s"
  by (cases "intervalRef s") (simp_all add: fire_def interval_callback_def clearInterval_def)

lemma run_until_in_flight: "in_flight (run_until T s) = in_flight s"
proof (induction T s rule: run_until.induct)
  case (1 T s)
  show ?case
  proof (cases "due T s")
    case None
    then show ?thesis by (simp add: run_until.simps [of T s])
  next
    case (Some t)
    with 1 show ?thesis by (simp add: run_until.simps [of T s] fire_in_flight)
  qed
qed

lemma settle_in_flight: "settle r out s = Some s' \<Longrightarrow> in_flight s' = in_flight s"
  by (cases r; cases out) (auto simp: page_defs Let_def split: if_splits)

lemma filter_without_nth:
  assumes "i < length xs"
  shows "length (filter P (take i xs @ drop (Suc i) xs)) + (if P (xs ! i) then 1 else 0)
         = length (filter P xs)"
proof -
  have "filter P xs = filter P (take i xs @ xs ! i # drop (Suc i) xs)"
    using assms by (simp add: id_take_nth_drop [symmetric])
  then show ?thesis by simp
qed

lemma step_fetches:
  assumes "step is_email ev s = Some s'"
  shows "fetches s' + (if is_replace ev s then 1 else 0) \<le> fetches s"
proof (cases ev)
  case (Settle i out)
  with assms have i: "i < length (in_flight s)"
    and st: "settle (in_flight s ! i) out
      (s\<lparr>in_flight := take i (in_flight s) @ drop (Suc i) (in_flight s)\<rparr>) = Some s'"
    by (simp_all split: if_splits)
  from settle_in_flight [OF st]
  have "in_flight s' = take i (in_flight s) @ drop (Suc i) (in_flight s)" by simp
  with filter_without_nth [OF i, of "\<lambda>r. r = GET_leads"] Settle show ?thesis
    by (cases out) (auto simp: fetches_def split: if_splits)
next
  case (Elapse d)
  with assms show ?thesis by (auto simp: fetches_def run_until_in_flight)
next
  case (Click_delete k)
  with assms show ?thesis
    by (cases "intervalRef s") (auto simp: fetches_def page_defs Let_def split: if_splits)
qed (use assms in \<open>auto simp: fetches_def page_defs split: if_splits\<close>)

lemma run_fetches:
  "run is_email evs s0 = Some s \<Longrightarrow>
   fetches s + (if replaced is_email evs s0 then 1 else 0) \<le> fetches s0"
proof (induction evs arbitrary: s0)
  case Nil
  then show ?case by simp
next
  case (Cons ev evs)
  from Cons.prems obtain s1 where s1: "step is_email ev s0 = Some s1"
    and r: "run is_email evs s1 = Some s"
    by (auto split: option.splits)
  from Cons.IH [OF r] step_fetches [OF s1] s1 show ?case
    by (auto split: if_splits)
qed

text \<open>
  The page issues its one read request when it mounts, so while that request is still in
  flight no replace has happened.
\<close>

lemma no_replace_while_fetching:
  assumes "run is_email evs mount = Some s" and "i < length (in_flight s)"
    and "in_flight s ! i = GET_leads"
  shows "\<not> replaced is_email evs mount"
proof
  assume "replaced is_email evs mount"
  with run_fetches [OF assms(1)] have "fetches s = 0"
    by (simp add: fetches_def page_defs)
  moreover from assms(2,3) have "GET_leads \<in> set (in_flight s)"
    using nth_mem by fastforce
  ultimately show False by (auto simp: fetches_def filter_empty_conv)
qed

section \<open>Agreement with the expected sequence\<close>

text \<open>
  When the sequence a request carries is still the sequence of the page, handling its
  response gives the sequence the specification expects. (An error field holding the
  empty string is set aside: the handlers take it for a success.)
\<close>

lemma settle_agrees_with_expected:
  assumes "settle r out s = Some s'"
    and "\<And>data ls. r = POST_lead data ls \<Longrightarrow> ls = leads s"
    and "\<And>lid ls. r = DELETE_lead lid ls \<Longrightarrow> ls = leads s"
    and "\<And>res. out = Object res \<Longrightarrow> res_error res \<noteq> Some []"
  shows "leads s' = expected_settle r out (leads s)"
proof (cases r)
  case GET_leads
  with assms(1) show ?thesis
    by (cases out) (auto simp: fetchLeads_try_def fetchLeads_catch_def)
next
  case (POST_lead data ls)
  with assms(2) have ls: "ls = leads s" by simp
  show ?thesis
  proof (cases out)
    case (Object res)
    with assms(4) have "res_error res \<noteq> Some []" by simp
    then have "truthy (res_error res) = (res_error res \<noteq> None)"
      by (cases "res_error res") auto
    with assms(1) POST_lead Object ls show ?thesis
      by (auto simp: onSubmit_then_def reset_def setOpen_def reset_error_effect_def)
  qed (use assms(1) POST_lead in \<open>auto simp: onSubmit_finally_def\<close>)
next
  case (DELETE_lead lid ls)
  with assms(3) have ls: "ls = leads s" by simp
  show ?thesis
  proof (cases out)
    case (Object res)
    with assms(4) have "res_error res \<noteq> Some []" by simp
    then have "truthy (res_error res) = (res_error res \<noteq> None)"
      by (cases "res_error res") auto
    with assms(1) DELETE_lead Object ls show ?thesis
      by (auto simp: removeLead_then_def setInterval_def)
  qed (use assms(1) DELETE_lead in auto)
qed

section \<open>The claims\<close>

text \<open>
  C1. A successful create is meant to leave the page's sequence with the response
  appended, one entry longer than it was. The success branch does close the modal, reset
  the form and clear the error, but it appends to the \<open>leads\<close> of the render in which the
  form was submitted, not to the sequence of the page. In \<open>delete_then_create\<close> the
  delete of Ada succeeds while the create is in flight, so the sequence is Bob alone when
  the create response arrives; after it the sequence is Ada, Bob, Cy: two entries longer,
  with the deleted lead back, where Bob, Cy is expected.
\<close>

theorem stale_create_restores_deleted_lead:
  "res_error Cy = None \<and>
   map_option leads (run has_at (butlast delete_then_create) mount) = Some [Bob] \<and>
   map_option leads (run has_at delete_then_create mount) = Some [Ada, Bob, Cy] \<and>
   expected_leads has_at delete_then_create mount [] = [Bob, Cy] \<and>
   map_option modal_open (run has_at delete_then_create mount) = Some False \<and>
   map_option form (run has_at delete_then_create mount) = Some form_initial \<and>
   map_option error (run has_at delete_then_create mount) = Some None"
  by (simp add: delete_then_create_def both_in_flight_def Cy_def Cy_input_def
        example_defs page_defs)

text \<open>
  C2, as amended. A create request whose response carries a non-empty error field: when
  the response is handled the error becomes that message and loading is switched off;
  the modal flag, the lead sequence and everything else are unchanged, and the message is
  shown in the form. (The handler tests \<open>res.error\<close> for truthiness, so an error field
  holding the empty string takes the success path.)
\<close>

theorem create_failure:
  assumes "truthy (res_error res)"
  shows "settle (POST_lead data ls) (Object res) s =
           Some (s\<lparr>error := res_error res, loading := False\<rparr>) \<and>
         Modal_visible (s\<lparr>error := res_error res, loading := False\<rparr>) = Modal_visible s \<and>
         leads (s\<lparr>error := res_error res, loading := False\<rparr>) = leads s \<and>
         form_error (s\<lparr>error := res_error res, loading := False\<rparr>) = res_error res"
  using assms by (simp add: onSubmit_then_def form_error_def Modal_visible_def)

theorem create_failure_witness:
  "truthy (res_error (body (Some ''Email already exists''))) \<and>
   run has_at submit_filled_form mount = Some (filling_form\<lparr>loading := True,
      in_flight := [POST_lead Ada_input [Ada, Bob]]\<rparr>) \<and>
   run has_at (submit_filled_form @ [Settle 0 (Object (body (Some ''Email already exists'')))])
      mount = Some (filling_form\<lparr>error := Some ''Email already exists''\<rparr>) \<and>
   form_error (filling_form\<lparr>error := Some ''Email already exists''\<rparr>)
     = Some ''Email already exists''"
  using create_failure [of "body (Some ''Email already exists'')" Ada_input "[Ada, Bob]"
      "filling_form\<lparr>loading := True\<rparr>"]
  by (simp add: example_defs page_defs form_error_def)

text \<open>
  C2 as stated fails for a response whose error field is the empty string: the modal was
  open and the sequence was Ada, Bob; after the response the modal is closed and the
  response object has been appended.
\<close>

theorem create_empty_error_counterexample:
  "res_error (body (Some [])) \<noteq> None \<and>
   map_option modal_open (run has_at submit_filled_form mount) = Some True \<and>
   map_option leads (run has_at submit_filled_form mount) = Some [Ada, Bob] \<and>
   map_option modal_open
     (run has_at (submit_filled_form @ [Settle 0 (Object (body (Some [])))]) mount)
     = Some False \<and>
   map_option leads
     (run has_at (submit_filled_form @ [Settle 0 (Object (body (Some [])))]) mount)
     = Some [Ada, Bob, body (Some [])]"
  by (simp add: example_defs page_defs)

text \<open>
  The handler takes every response whose error field is absent or empty for a success.
\<close>

lemma onSubmit_then_falsy_error:
  "\<not> truthy (res_error res) \<Longrightarrow>
   settle (POST_lead data ls) (Object res) s =
     Some (s\<lparr>modal_open := False, form := form_initial, errors := no_errors,
             error := None, loading := False, leads := ls @ [res]\<rparr>)"
  by (simp add: onSubmit_then_def reset_def setOpen_def reset_error_effect_def)

text \<open>
  C3. A successful delete is meant to take the records with that id out of the page's
  sequence and leave all other records as they are. The success branch filters the
  \<open>leads\<close> of the render in which the button was clicked, not the sequence of the page.
  In \<open>create_then_delete\<close> the create of Cy succeeds while the delete of Ada is in
  flight, so the sequence is Ada, Bob, Cy when the delete response arrives; after it the
  sequence is Bob alone: the id is gone, but so is Cy, where Bob, Cy is expected.
\<close>

theorem stale_delete_drops_created_lead:
  "res_error (body None) = None \<and>
   map_option leads (run has_at (butlast create_then_delete) mount) = Some [Ada, Bob, Cy] \<and>
   map_option leads (run has_at create_then_delete mount) = Some [Bob] \<and>
   expected_leads has_at create_then_delete mount [] = [Bob, Cy]"
  by (simp add: create_then_delete_def both_in_flight_def Cy_def Cy_input_def
        example_defs page_defs)

text \<open>
  What the success branch does in general: the new sequence is the one the request
  carries without the records of that id, whatever the sequence of the page is.
\<close>

lemma removeLead_then_falsy_error:
  "\<not> truthy (res_error res) \<Longrightarrow>
   settle (DELETE_lead lid ls) (Object res) s =
     Some (s\<lparr>leads := filter (\<lambda>l. lead_id l \<noteq> lid) ls\<rparr>)"
  by (simp add: removeLead_then_def)

text \<open>
  C4. A failed delete shows its message, and the auto-clear is meant to remove it four
  seconds later with never more than one timer pending. The code misses this when
  requests overlap. In \<open>two_failed_deletes\<close> both deletes were clicked before either
  response, so neither call found a timer to clear: after the second failure two
  intervals are pending. Three seconds later the first one fires, clears the second
  message after three seconds instead of four, and clears the second interval instead of
  itself, so it stays pending with its next firing at eight seconds. In
  \<open>failed_then_successful_delete\<close> the second click clears the interval and its
  successful response schedules none: four seconds after the failure, with no new
  failure, the message is still shown and no interval is pending.
\<close>

theorem auto_clear_lost_or_doubled:
  "map_option timers (run has_at two_failed_deletes mount) = Some [(1, 4000), (2, 5000)] \<and>
   map_option error (run has_at two_failed_deletes mount) = Some (Some ''Locked'') \<and>
   map_option now (run has_at two_failed_deletes mount) = Some 1000 \<and>
   map_option error (run has_at (two_failed_deletes @ [Elapse 3000]) mount) = Some None \<and>
   map_option timers (run has_at (two_failed_deletes @ [Elapse 3000]) mount)
     = Some [(1, 8000)] \<and>
   map_option error (run has_at failed_then_successful_delete mount)
     = Some (Some ''Not found'') \<and>
   map_option now (run has_at failed_then_successful_delete mount) = Some 4000 \<and>
   map_option timers (run has_at failed_then_successful_delete mount) = Some []"
  by (simp add: example_defs page_defs run_until.simps due_def fire_def interval_callback_def)

text \<open>
  C5, as amended. A remove call with an empty id issues no delete request and leaves the
  lead sequence and the error message as they are. It is not a no-op on the timers: the
  interval held in \<open>intervalRef\<close> is cleared before the guard on the id is reached. The
  other pending intervals and the rest of the state are unchanged.
\<close>

theorem remove_empty_id:
  "removeLead [] s = clearInterval (intervalRef s) s \<and>
   in_flight (removeLead [] s) = in_flight s \<and>
   leads (removeLead [] s) = leads s \<and>
   error (removeLead [] s) = error s \<and>
   timers (removeLead [] s) =
     (case intervalRef s of
        None \<Rightarrow> timers s
      | Some h \<Rightarrow> filter (\<lambda>t. fst t \<noteq> h) (timers s)) \<and>
   removeLead [] s = s\<lparr>timers := timers (removeLead [] s)\<rparr>"
  by (cases "intervalRef s") (simp_all add: removeLead_def clearInterval_def)

theorem remove_empty_id_witness:
  "run has_at failed_delete mount =
     Some (loaded\<lparr>error := Some ''Not found'', intervalRef := Some 1, timers := [(1, 4000)],
                  next_handle := 2\<rparr>) \<and>
   removeLead [] (loaded\<lparr>error := Some ''Not found'', intervalRef := Some 1,
                         timers := [(1, 4000)], next_handle := 2\<rparr>)
     = loaded\<lparr>error := Some ''Not found'', intervalRef := Some 1, timers := [],
              next_handle := 2\<rparr>"
  using remove_empty_id [of "loaded\<lparr>error := Some ''Not found'', intervalRef := Some 1,
      timers := [(1, 4000)], next_handle := 2\<rparr>"]
  by (simp add: example_defs page_defs)

text \<open>
  C5 as stated fails: after a failed delete one auto-clear interval is pending; the
  click on the row without id calls remove with the empty id, which issues no request but
  leaves no interval pending, and four seconds later the message is still shown.
\<close>

theorem remove_empty_id_counterexample:
  "map_option timers (run has_at (butlast failed_delete_then_empty_id) mount)
     = Some [(1, 4000)] \<and>
   map_option in_flight (run has_at failed_delete_then_empty_id mount) = Some [] \<and>
   map_option timers (run has_at failed_delete_then_empty_id mount) = Some [] \<and>
   map_option error (run has_at (failed_delete_then_empty_id @ [Elapse 4000]) mount)
     = Some (Some ''Not found'')"
  by (simp add: example_defs page_defs run_until.simps due_def)

text \<open>
  C6, as amended. Whenever an event takes the modal flag from open to closed, the error
  is null afterwards; opening the modal with the add button leaves the error as it is.
  (The effect on the flag runs on every change, but it clears the error only when the
  flag is false.)
\<close>

theorem modal_close_clears_error:
  "(step is_email ev s = Some s' \<and> modal_open s \<and> \<not> modal_open s' \<longrightarrow> error s' = None) \<and>
   (step is_email Click_add s1 = Some s2 \<longrightarrow> error s2 = error s1)"
proof -
  have "error s' = None"
    if "step is_email ev s = Some s'" and "modal_open s" and "\<not> modal_open s'"
  proof (cases ev)
    case (Settle i out)
    with that show ?thesis
      by (cases "in_flight s ! i"; cases out)
         (auto simp: page_defs Let_def split: if_splits prod.splits)
  next
    case (Elapse d)
    with that show ?thesis by (auto simp: run_until_modal_open)
  qed (use that in \<open>auto simp: page_defs Let_def split: if_splits option.splits\<close>)
  moreover have "error s2 = error s1" if "step is_email Click_add s1 = Some s2"
    using that by (auto simp: page_defs split: if_splits)
  ultimately show ?thesis by blast
qed

theorem modal_close_clears_error_witness:
  "step has_at Click_close (filling_form\<lparr>error := Some ''Email already exists''\<rparr>)
     = Some (filling_form\<lparr>modal_open := False, error := None\<rparr>) \<and>
   modal_open (filling_form\<lparr>error := Some ''Email already exists''\<rparr>) \<and>
   \<not> modal_open (filling_form\<lparr>modal_open := False, error := None\<rparr>) \<and>
   error (filling_form\<lparr>modal_open := False, error := None\<rparr>) = None \<and>
   step has_at Click_add (loaded\<lparr>error := Some ''Not found''\<rparr>)
     = Some (loaded\<lparr>error := Some ''Not found'', modal_open := True\<rparr>) \<and>
   error (loaded\<lparr>error := Some ''Not found'', modal_open := True\<rparr>) = Some ''Not found''"
  using modal_close_clears_error [where is_email = has_at and ev = Click_close
     and s = "filling_form\<lparr>error := Some ''Email already exists''\<rparr>"
     and s' = "filling_form\<lparr>modal_open := False, error := None\<rparr>"
     and ?s1.0 = "loaded\<lparr>error := Some ''Not found''\<rparr>"
     and ?s2.0 = "loaded\<lparr>error := Some ''Not found'', modal_open := True\<rparr>"]
  by (simp add: example_defs page_defs)

text \<open>
  C6 as stated fails when the modal is opened: after a failed delete the modal is closed
  and the message is set; clicking the add button changes the flag to open and the
  message is still there, now shown in the form.
\<close>

theorem modal_open_keeps_error_counterexample:
  "map_option modal_open (run has_at failed_delete mount) = Some False \<and>
   map_option error (run has_at failed_delete mount) = Some (Some ''Not found'') \<and>
   map_option modal_open (run has_at (failed_delete @ [Click_add]) mount) = Some True \<and>
   map_option error (run has_at (failed_delete @ [Click_add]) mount)
     = Some (Some ''Not found'') \<and>
   map_option form_error (run has_at (failed_delete @ [Click_add]) mount)
     = Some (Some ''Not found'')"
  by (simp add: example_defs page_defs form_error_def)

text \<open>
  C7. The displayed sequence is meant to be the last fetched sequence with the successful
  creates appended and the successful deletes removed. The code misses this when
  requests overlap, because each response handler writes a sequence computed from the
  \<open>leads\<close> of the render in which its request was issued. In \<open>two_deletes\<close> Ada and Bob
  are fetched and both are deleted successfully, so the expected sequence is empty; the
  page shows Ada again.
\<close>

theorem overlapping_deletes_restore_a_lead:
  "map_option leads (run has_at two_deletes mount) = Some [Ada] \<and>
   expected_leads has_at two_deletes mount [] = [] \<and>
   map_option tbody (run has_at two_deletes mount) = Some [Lead_row 1 Ada]"
  by (simp add: example_defs page_defs tbody_def enumerate_eq_zip)

text \<open>
  C8. When the name field of the form is empty, validation gives the name field the
  message \<open>Name is required\<close>, and submitting only stores the field messages: no request
  is added to those in flight and nothing else of the state changes.
\<close>

theorem empty_name_rejected:
  assumes "name (form s) = []"
  shows "name_message (schema is_email (form s)) = Some ''Name is required'' \<and>
         name_message (errors (handleSubmit is_email s)) = Some ''Name is required'' \<and>
         in_flight (handleSubmit is_email s) = in_flight s \<and>
         handleSubmit is_email s = s\<lparr>errors := schema is_email (form s)\<rparr>"
  using assms by (simp add: handleSubmit_def schema_def no_errors_def)

theorem empty_name_rejected_witness:
  "name (form (loaded\<lparr>modal_open := True\<rparr>)) = [] \<and>
   step has_at Submit (loaded\<lparr>modal_open := True\<rparr>) =
     Some (loaded\<lparr>modal_open := True,
                  errors := \<lparr>name_message = Some ''Name is required'',
                             email_message = Some ''Email is required'',
                             status_message = None\<rparr>\<rparr>) \<and>
   in_flight (loaded\<lparr>modal_open := True\<rparr>) = []"
  using empty_name_rejected [of "loaded\<lparr>modal_open := True\<rparr>" has_at]
  by (simp add: example_defs page_defs)

text \<open>
  C9. When the read request fails, the error becomes the message of the failure,
  fetching is switched off and the lead sequence is left as it was. The table then shows
  the empty-state row exactly when that sequence is empty, and the error row when the
  modal is closed and the message is not empty. The page issues its read request once,
  when it mounts: in any run from the mounted page in which that request is still in
  flight, and so can still fail, no successful replace has happened. On the mounted page
  itself the sequence is the initial empty one, and after the failure the table shows the
  empty-state row followed by the error row.
\<close>

theorem fetch_failure:
  "settle GET_leads (Failure m) s = Some (s\<lparr>error := Some m, fetching := False\<rparr>) \<and>
   leads (s\<lparr>error := Some m, fetching := False\<rparr>) = leads s \<and>
   (No_leads_row \<in> set (tbody (s\<lparr>error := Some m, fetching := False\<rparr>))) = (leads s = []) \<and>
   (Error_row m \<in> set (tbody (s\<lparr>error := Some m, fetching := False\<rparr>)))
     = (\<not> modal_open s \<and> m \<noteq> []) \<and>
   form_error (s\<lparr>error := Some m, fetching := False\<rparr>) = (if m = [] then None else Some m) \<and>
   (run is_email evs mount = Some s1 \<and> i < length (in_flight s1) \<and> in_flight s1 ! i = GET_leads
      \<longrightarrow> \<not> replaced is_email evs mount \<and>
          step is_email (Settle i (Failure m)) s1 =
            Some (s1\<lparr>error := Some m, fetching := False,
                     in_flight := take i (in_flight s1) @ drop (Suc i) (in_flight s1)\<rparr>)) \<and>
   leads mount = [] \<and>
   run is_email [Settle 0 (Failure m)] mount
     = Some (mount\<lparr>error := Some m, fetching := False, in_flight := []\<rparr>) \<and>
   tbody (mount\<lparr>error := Some m, fetching := False, in_flight := []\<rparr>)
     = No_leads_row # (if m = [] then [] else [Error_row m])"
proof -
  have "run is_email evs mount = Some s1 \<and> i < length (in_flight s1)
      \<and> in_flight s1 ! i = GET_leads
      \<longrightarrow> \<not> replaced is_email evs mount \<and>
          step is_email (Settle i (Failure m)) s1 =
            Some (s1\<lparr>error := Some m, fetching := False,
                     in_flight := take i (in_flight s1) @ drop (Suc i) (in_flight s1)\<rparr>)"
    using no_replace_while_fetching by (auto simp: fetchLeads_catch_def)
  moreover have "(No_leads_row \<in> set (tbody (s\<lparr>error := Some m, fetching := False\<rparr>)))
      = (leads s = [])"
    by (auto simp: tbody_def in_set_enumerate_eq)
  moreover have "(Error_row m \<in> set (tbody (s\<lparr>error := Some m, fetching := False\<rparr>)))
     = (\<not> modal_open s \<and> m \<noteq> [])"
    by (auto simp: tbody_def in_set_enumerate_eq)
  moreover have "run is_email [Settle 0 (Failure m)] mount
     = Some (mount\<lparr>error := Some m, fetching := False, in_flight := []\<rparr>)"
    by (simp add: page_defs)
  moreover have "tbody (mount\<lparr>error := Some m, fetching := False, in_flight := []\<rparr>)
     = No_leads_row # (if m = [] then [] else [Error_row m])"
    by (simp add: page_defs tbody_def)
  moreover have "leads mount = []"
    by (simp add: page_defs)
  ultimately show ?thesis
    by (simp add: fetchLeads_catch_def form_error_def)
qed

theorem fetch_failure_witness:
  "run has_at [Click_add, Edit Ada_input, Submit, Settle 1 (Object Ada)] mount
     = Some (mount\<lparr>leads := [Ada]\<rparr>) \<and>
   in_flight (mount\<lparr>leads := [Ada]\<rparr>) = [GET_leads] \<and>
   \<not> replaced has_at [Click_add, Edit Ada_input, Submit, Settle 1 (Object Ada)] mount \<and>
   step has_at (Settle 0 (Failure ''Failed to fetch'')) (mount\<lparr>leads := [Ada]\<rparr>)
     = Some (mount\<lparr>leads := [Ada], error := Some ''Failed to fetch'', fetching := False,
                  in_flight := []\<rparr>) \<and>
   tbody (mount\<lparr>leads := [Ada], error := Some ''Failed to fetch'', fetching := False,
                in_flight := []\<rparr>)
     = [Lead_row 1 Ada, Error_row ''Failed to fetch''] \<and>
   run has_at [Settle 0 (Failure ''Failed to fetch'')] mount
     = Some (mount\<lparr>error := Some ''Failed to fetch'', fetching := False, in_flight := []\<rparr>) \<and>
   tbody (mount\<lparr>error := Some ''Failed to fetch'', fetching := False, in_flight := []\<rparr>)
     = [No_leads_row, Error_row ''Failed to fetch'']"
  using fetch_failure [where m = "''Failed to fetch''" and s = mount and is_email = has_at
      and evs = "[Click_add, Edit Ada_input, Submit, Settle 1 (Object Ada)]"
      and ?s1.0 = "mount\<lparr>leads := [Ada]\<rparr>" and i = 0]
  by (simp add: example_defs page_defs tbody_def enumerate_eq_zip)

text \<open>
  C10, as amended. A failed delete schedules an interval due four seconds later. The
  callback of an interval sets the error to null whatever the error is and whichever
  operation set it: if a pending interval is due by \<open>T\<close>, the error is null once the
  clock has reached \<open>T\<close>. Among the events other than the passing of time, only a remove
  call takes a pending interval away; in particular no response, successful or failed,
  does.
\<close>

theorem delete_timer_clears_any_error:
  "(truthy (res_error res) \<longrightarrow>
      (next_handle s0, now s0 + 4000) \<in> set (timers (removeLead_then lid ls res s0))) \<and>
   error (fire h d s) = None \<and>
   (t \<in> set (timers s) \<and> snd t \<le> T \<longrightarrow> error (run_until T s) = None) \<and>
   (step is_email ev s1 = Some s2 \<and> (\<forall>k. ev \<noteq> Click_delete k) \<and> (\<forall>k. ev \<noteq> Elapse k) \<longrightarrow>
      set (timers s1) \<subseteq> set (timers s2))"
proof -
  have "truthy (res_error res) \<longrightarrow>
      (next_handle s0, now s0 + 4000) \<in> set (timers (removeLead_then lid ls res s0))"
    by (simp add: removeLead_then_def setInterval_def error_duration_def)
  moreover have "t \<in> set (timers s) \<and> snd t \<le> T \<longrightarrow> error (run_until T s) = None"
    using run_until_clears by blast
  moreover have "step is_email ev s1 = Some s2 \<and> (\<forall>k. ev \<noteq> Click_delete k)
      \<and> (\<forall>k. ev \<noteq> Elapse k) \<longrightarrow> set (timers s1) \<subseteq> set (timers s2)"
    using step_keeps_timers by blast
  ultimately show ?thesis using fire_error by blast
qed

theorem delete_timer_clears_any_error_witness:
  "truthy (res_error (body (Some ''Not found''))) \<and>
   (1, 4000) \<in> set (timers (removeLead_then ''a1'' [Ada, Bob] (body (Some ''Not found'')) loaded)) \<and>
   run has_at create_after_failed_delete mount = Some awaiting_create \<and>
   step has_at (Settle 0 (Object (body (Some ''Email already exists'')))) awaiting_create
     = Some create_refused \<and>
   set (timers awaiting_create) \<subseteq> set (timers create_refused) \<and>
   error create_refused = Some ''Email already exists'' \<and>
   (1, 4000) \<in> set (timers create_refused) \<and>
   error (run_until 4000 create_refused) = None"
  using delete_timer_clears_any_error [where res = "body (Some ''Not found'')"
      and ?s0.0 = loaded and lid = "''a1''" and ls = "[Ada, Bob]" and h = 1 and d = 4000
      and t = "(1, 4000)" and T = 4000 and s = create_refused and is_email = has_at
      and ev = "Settle 0 (Object (body (Some ''Email already exists'')))"
      and ?s1.0 = awaiting_create and ?s2.0 = create_refused]
  by (simp add: create_after_failed_delete_def awaiting_create_def create_refused_def
        example_defs page_defs run_until.simps due_def)

text \<open>
  C10 as stated fails: a pending interval can be taken away without a remove call. After
  the two failed deletes the intervals 1 and 2 are pending, due at four and five seconds.
  When the clock reaches four seconds interval 1 fires and its callback clears interval
  2, which has not fired. A create refused afterwards sets a message that is still shown
  at five seconds, four seconds after the second failed delete.
\<close>

theorem callback_cancels_other_timer_counterexample:
  "map_option timers (run has_at two_failed_deletes mount) = Some [(1, 4000), (2, 5000)] \<and>
   map_option timers (run has_at (two_failed_deletes @ [Elapse 3000]) mount)
     = Some [(1, 8000)] \<and>
   map_option now (run has_at (two_failed_deletes @ [Elapse 3000]) mount) = Some 4000 \<and>
   map_option now (run has_at refused_create_after_two_failed_deletes mount) = Some 5000 \<and>
   map_option error (run has_at refused_create_after_two_failed_deletes mount)
     = Some (Some ''Email already exists'')"
  by (simp add: refused_create_after_two_failed_deletes_def example_defs page_defs
        run_until.simps due_def fire_def interval_callback_def)

end
